theory Spec2Isabelle
  imports Main "HOL-Library.Word" "HOL-Library.AList"
begin

section \<open>Data model of the authentication server\<close>

text \<open>
  Instants of \<^verbatim>\<open>time.Time\<close> are integers: \<^verbatim>\<open>t.Before(u)\<close> is \<open>t < u\<close>,
  \<^verbatim>\<open>t.After(u)\<close> is \<open>u < t\<close> and \<^verbatim>\<open>t.Add(d)\<close> is \<open>t + d\<close>. The
  counter \<^verbatim>\<open>version int64\<close> is a 64-bit word, so \<^verbatim>\<open>m.version++\<close> wraps.

  A Go map is an association list: \<open>map_of\<close> is the lookup, \<open>AList.update\<close> the
  assignment \<^verbatim>\<open>m[k] = v\<close>, \<open>AList.delete\<close> the built-in \<^verbatim>\<open>delete(m, k)\<close>.
  The order of the list is the order in which a \<^verbatim>\<open>range\<close> loop meets the
  entries. Go leaves that order open, and the theorems below hold for every list.
\<close>

type_synonym time = int
type_synonym int64 = "64 word"

record userInfo =
  UserID :: string
  Password :: string
  passwordDecoded :: string
  Creds :: "(string \<times> string) list"

record tokenInfo =
  UserID_tok :: string
  Issued :: time
  Expires :: time
  Token :: string

record TokenList =
  Tokens :: "string list"
  Version :: int64

text \<open>
  Modelled from the spec: the types \<^verbatim>\<open>dfc.Smap\<close> and \<^verbatim>\<open>daemonInfo\<close> are declared
  in a file of package \<^verbatim>\<open>dfc\<close> that is not among the sources. The spec describes the
  snapshot as the primary coordinator's address plus the known proxy-role and
  storage-role members, each with an identity and a reachable address; the code reads
  \<^verbatim>\<open>Pmap\<close>, \<^verbatim>\<open>Tmap\<close>, \<^verbatim>\<open>ProxySI\<close> and \<^verbatim>\<open>DirectURL\<close>.
\<close>

record daemonInfo =
  DaemonID :: string
  DirectURL :: string

record Smap =
  Tmap :: "(string \<times> daemonInfo) list"
  Pmap :: "(string \<times> daemonInfo) list"
  ProxySI :: daemonInfo

record proxy =
  Url :: string
  Smap :: "Smap option"
  configPath :: string

text \<open>
  \<^verbatim>\<open>Users map[string]*userInfo\<close> is read from a JSON file, so an entry can be the nil
  pointer: the values are options. A file that holds the JSON value null leaves
  \<^verbatim>\<open>Users\<close> the nil map: \<open>UsersNil\<close> says so, and the list is then empty. A nil map
  reads like an empty one (lookup, \<^verbatim>\<open>range\<close>, \<^verbatim>\<open>delete\<close>), and an assignment to it
  panics. \<^verbatim>\<open>tokens\<close> is private: it is made by \<^verbatim>\<open>make\<close> and every assignment in the
  package stores a pointer to a fresh record.
\<close>

record userManager =
  Path :: string
  Users :: "(string \<times> userInfo option) list"
  UsersNil :: bool
  tokens :: "(string \<times> tokenInfo) list"
  version :: int64
  proxy :: proxy

datatype error =
    InvalidCredentials             \<comment> \<open>"Invalid credentials"\<close>
  | AlreadyRegistered string       \<comment> \<open>"User '%s' already registered"\<close>
  | UserNotExist string            \<comment> \<open>"User %s does not exist"\<close>
  | InvalidUserOrPassword          \<comment> \<open>"Invalid username or password"\<close>
  | GenerateTokenFailed string     \<comment> \<open>"failed to generate token: %v"\<close>
  | TokenExpired                   \<comment> \<open>"Token expired"\<close>
  | InvalidToken                   \<comment> \<open>"Invalid token"\<close>
  | TokenNotFound                  \<comment> \<open>"Token not found"\<close>
  | SaveUsersFailed string         \<comment> \<open>"UserManager: Failed to save user list: %v"\<close>
  | EmptyClusterMap                \<comment> \<open>"Cluster map is empty"\<close>
  | PrimaryDetectionFailed         \<comment> \<open>"Detecting primary proxy failed"\<close>
  | UnexpectedSigningMethod        \<comment> \<open>"Unexpected signing method: %v"\<close>
  | LibraryError string            \<comment> \<open>an error made by a library call\<close>
  | Fatal                          \<comment> \<open>\<^verbatim>\<open>glog.Fatalf\<close>: the process exits\<close>
  | NilDereference                 \<comment> \<open>run-time panic on a nil pointer\<close>
  | NilMapAssignment               \<comment> \<open>run-time panic: assignment to entry in nil map\<close>

section \<open>Library calls taken as parameters\<close>

text \<open>
  A value of type \<^verbatim>\<open>interface{}\<close> stored in a claim set, with its dynamic type.
\<close>

datatype val =
    VNil
  | VBool bool
  | VNumber int
  | VString string
  | VStrMap "(string \<times> string) list"   \<comment> \<open>\<^verbatim>\<open>map[string]string\<close>\<close>
  | VObject "(string \<times> val) list"      \<comment> \<open>\<^verbatim>\<open>map[string]interface{}\<close>\<close>
  | VArray "val list"

datatype signingMethod = SigningMethodHMAC | SigningMethodOther

datatype claims = MapClaims "(string \<times> val) list" | OtherClaims

record jwtToken =
  Method :: signingMethod
  Claims :: claims
  Valid :: bool

text \<open>
  The packages \<^verbatim>\<open>jwt-go\<close>, \<^verbatim>\<open>time\<close> and \<^verbatim>\<open>encoding/base64\<close> are not part of
  the repository. Their functions are fields of one record, and every definition below
  takes the record as an argument: \<open>jwtParse\<close> is \<^verbatim>\<open>jwt.Parse\<close> (the token string and
  the key function), \<open>jwtSignedString\<close> is \<^verbatim>\<open>NewWithClaims(HS256, c).SignedString(key)\<close>
  (\<open>Inl\<close> the text of its error),
  \<open>timeParse\<close> and \<open>timeFormat\<close> are \<^verbatim>\<open>time.Parse\<close> and \<^verbatim>\<open>Format\<close> with the
  layout RFC822, \<open>b64Encode\<close> and \<open>b64Decode\<close> are the two functions of
  \<^verbatim>\<open>base64.StdEncoding\<close>.
\<close>

record lib =
  jwtParse :: "string \<Rightarrow> (jwtToken \<Rightarrow> error + string) \<Rightarrow> error + jwtToken"
  jwtSignedString :: "(string \<times> val) list \<Rightarrow> string \<Rightarrow> string + string"
  timeParse :: "string \<Rightarrow> time option"
  timeFormat :: "time \<Rightarrow> string"
  b64Encode :: "string \<Rightarrow> string"
  b64Decode :: "string \<Rightarrow> string option"

text \<open>The section \<^verbatim>\<open>Auth\<close> of the configuration.\<close>

record authConf =
  Secret :: string
  ExpirePeriod :: int

section \<open>Credential store\<close>

text \<open>
  \<^verbatim>\<open>dfc.LocalSave\<close> is not among the sources: \<open>LocalSave path users\<close> is the error
  text it returns, \<open>None\<close> for nil.
\<close>

type_synonym users = "(string \<times> userInfo option) list"

definition saveUsers :: "(string \<Rightarrow> users \<Rightarrow> string option) \<Rightarrow> userManager \<Rightarrow> error option" where
  "saveUsers LocalSave m =
     (case LocalSave (Path m) (Users m) of
        None \<Rightarrow> None
      | Some e \<Rightarrow> Some (SaveUsersFailed e))"

definition addUser ::
  "lib \<Rightarrow> (string \<Rightarrow> users \<Rightarrow> string option) \<Rightarrow> string \<Rightarrow> string \<Rightarrow> userManager
    \<Rightarrow> error option \<times> userManager" where
  "addUser L LocalSave userID userPass m =
     (if userID = [] \<or> userPass = [] then (Some InvalidCredentials, m)
      else if map_of (Users m) userID \<noteq> None then (Some (AlreadyRegistered userID), m)
      else if UsersNil m then (Some NilMapAssignment, m)
      else
        let m1 = m\<lparr>Users := AList.update userID
                     (Some \<lparr>UserID = userID, Password = b64Encode L userPass,
                            passwordDecoded = userPass, Creds = []\<rparr>) (Users m)\<rparr>;
            m2 = m1\<lparr>tokens := AList.delete userID (tokens m1)\<rparr>
        in (saveUsers LocalSave m2, m2))"

text \<open>
  The third component of the result tells whether the goroutine
  \<^verbatim>\<open>sendTokensToProxy\<close> was started.
\<close>

definition delUser ::
  "(string \<Rightarrow> users \<Rightarrow> string option) \<Rightarrow> string \<Rightarrow> userManager
    \<Rightarrow> error option \<times> userManager \<times> bool" where
  "delUser LocalSave userID m =
     (if map_of (Users m) userID = None then (Some (UserNotExist userID), m, False)
      else
        let m1 = m\<lparr>Users := AList.delete userID (Users m)\<rparr>;
            ok = (map_of (tokens m1) userID \<noteq> None);
            m2 = m1\<lparr>tokens := AList.delete userID (tokens m1)\<rparr>;
            m3 = (if ok then m2\<lparr>version := version m2 + 1\<rparr> else m2)
        in (saveUsers LocalSave m3, m3, ok))"

section \<open>Token authority\<close>

text \<open>
  The loop \<^verbatim>\<open>for id, info := range m.tokens { if info.Token == token { ... } }\<close> of
  \<^verbatim>\<open>revokeToken\<close> and \<^verbatim>\<open>userByToken\<close>: the first entry met whose \<^verbatim>\<open>Token\<close> is
  the argument. Each of the two leaves the loop at that entry.
\<close>

fun findToken :: "string \<Rightarrow> (string \<times> tokenInfo) list \<Rightarrow> (string \<times> tokenInfo) option" where
  "findToken token [] = None"
| "findToken token ((uid, info) # rest) =
     (if Token info = token then Some (uid, info) else findToken token rest)"

definition revokeToken :: "string \<Rightarrow> userManager \<Rightarrow> userManager \<times> bool" where
  "revokeToken token m =
     (case findToken token (tokens m) of
        Some (uid, info) \<Rightarrow>
          (m\<lparr>tokens := AList.delete uid (tokens m), version := version m + 1\<rparr>, True)
      | None \<Rightarrow> (m, False))"

text \<open>\<open>now\<close> is the value of the one call of \<^verbatim>\<open>time.Now()\<close>.\<close>

definition userByToken ::
  "time \<Rightarrow> string \<Rightarrow> userManager \<Rightarrow> (error + userInfo option) \<times> userManager" where
  "userByToken now token m =
     (case findToken token (tokens m) of
        Some (uid, info) \<Rightarrow>
          if Expires info < now
          then (Inl TokenExpired, m\<lparr>tokens := AList.delete uid (tokens m)\<rparr>)
          else (case map_of (Users m) uid of
                  None \<Rightarrow> (Inl InvalidToken, m)
                | Some user \<Rightarrow> (Inr user, m))
      | None \<Rightarrow> (Inl TokenNotFound, m))"

text \<open>
  \<^verbatim>\<open>issueToken\<close> reads the clock twice: \<open>now\<close> where it compares the stored token's
  expiry, \<open>issued\<close> where it makes the new token. The result is the returned pair
  (as a sum), the manager, and whether \<^verbatim>\<open>sendTokensToProxy\<close> was started.
\<close>

definition mintToken ::
  "lib \<Rightarrow> authConf \<Rightarrow> time \<Rightarrow> string \<Rightarrow> (string \<times> string) list \<Rightarrow> userManager
    \<Rightarrow> (error + string) \<times> userManager \<times> bool" where
  "mintToken L conf issued userID creds m =
     (let expires = issued + ExpirePeriod conf;
          t = [(''issued'', VString (timeFormat L issued)),
               (''expires'', VString (timeFormat L expires)),
               (''username'', VString userID),
               (''creds'', VStrMap creds)]
      in case jwtSignedString L t (Secret conf) of
           Inl e \<Rightarrow> (Inl (GenerateTokenFailed e), m, False)
         | Inr tokenString \<Rightarrow>
             let token = \<lparr>UserID_tok = userID, Issued = issued, Expires = expires,
                          Token = tokenString\<rparr>
             in (Inr tokenString,
                 m\<lparr>tokens := AList.update userID token (tokens m), version := version m + 1\<rparr>,
                 True))"

definition issueToken ::
  "lib \<Rightarrow> authConf \<Rightarrow> time \<Rightarrow> time \<Rightarrow> string \<Rightarrow> string \<Rightarrow> userManager
    \<Rightarrow> (error + string) \<times> userManager \<times> bool" where
  "issueToken L conf now issued userID pwd m =
     (case map_of (Users m) userID of
        None \<Rightarrow> (Inl InvalidCredentials, m, False)
      | Some None \<Rightarrow> (Inl NilDereference, m, False)
      | Some (Some user) \<Rightarrow>
          if passwordDecoded user \<noteq> pwd then (Inl InvalidUserOrPassword, m, False)
          else (case map_of (tokens m) userID of
                  Some token \<Rightarrow>
                    if now < Expires token then (Inr (Token token), m, False)
                    else mintToken L conf issued userID (Creds user)
                           (m\<lparr>tokens := AList.delete userID (tokens m)\<rparr>)
                | None \<Rightarrow> mintToken L conf issued userID (Creds user) m))"

subsection \<open>Start-up\<close>

text \<open>
  The key function handed to \<^verbatim>\<open>jwt.Parse\<close>: it refuses every signing method but
  HMAC and otherwise returns the configured secret.
\<close>

definition keyFunc :: "string \<Rightarrow> jwtToken \<Rightarrow> error + string" where
  "keyFunc secret token =
     (if Method token = SigningMethodHMAC then Inr secret else Inl UnexpectedSigningMethod)"

text \<open>The type assertions \<^verbatim>\<open>claims[k].(string)\<close> and \<^verbatim>\<open>claims[k].(map[string]string)\<close>
  on the result of a lookup; a missing key gives the nil interface, which fails both.\<close>

fun assertString :: "val option \<Rightarrow> string option" where
  "assertString (Some (VString s)) = Some s"
| "assertString _ = None"

fun assertStrMap :: "val option \<Rightarrow> (string \<times> string) list option" where
  "assertStrMap (Some (VStrMap c)) = Some c"
| "assertStrMap _ = None"








section \<open>Cluster sync client\<close>

text \<open>
  What the process does to the outside world is a trace of events, oldest first. The
  answers of the network may depend on everything that happened before: each network
  call is a function of the trace so far. \<open>GetClusterMap\<close> is
  \<^verbatim>\<open>client.GetClusterMap\<close>, \<open>NewRequest\<close> is the error of \<^verbatim>\<open>http.NewRequest\<close>,
  \<open>Do\<close> is \<^verbatim>\<open>client.Do\<close> of a POST request with a body (\<open>Inl\<close> a transport error,
  \<open>Inr\<close> the status code); \<open>Rversion\<close> and \<open>Rtokens\<close> are the two path constants of
  package \<^verbatim>\<open>dfc\<close>, which are not among the sources.
\<close>

datatype event =
    SaveTokens string TokenList
  | Post string TokenList
  | GetSmap string
  | SaveSmap proxy

record netenv =
  GetClusterMap :: "event list \<Rightarrow> string \<Rightarrow> error + Smap"
  NewRequest :: "string \<Rightarrow> error option"
  Do :: "event list \<Rightarrow> string \<Rightarrow> TokenList \<Rightarrow> error + nat"
  Rversion :: string
  Rtokens :: string

text \<open>
  Either \<^verbatim>\<open>range\<close> loop of \<^verbatim>\<open>detectPrimary\<close> (the two differ in the map
  only): \<open>Some smap\<close> when a member's answer is adopted, \<open>None\<close> when the loop ends.
  \<open>url\<close> is \<^verbatim>\<open>p.Url\<close>, which no iteration changes before the function returns.
\<close>

fun probeLoop ::
  "(event list \<Rightarrow> string \<Rightarrow> error + Smap) \<Rightarrow> string \<Rightarrow> daemonInfo list \<Rightarrow> event list
    \<Rightarrow> Smap option \<times> event list" where
  "probeLoop get url [] tr = (None, tr)"
| "probeLoop get url (pinfo # rest) tr =
     (if DirectURL pinfo = url then probeLoop get url rest tr
      else (case get tr (DirectURL pinfo) of
              Inl err \<Rightarrow> probeLoop get url rest (tr @ [GetSmap (DirectURL pinfo)])
            | Inr smap \<Rightarrow>
                if DirectURL (ProxySI smap) \<noteq> url
                then (Some smap, tr @ [GetSmap (DirectURL pinfo)])
                else probeLoop get url rest (tr @ [GetSmap (DirectURL pinfo)])))"

definition adopt :: "Smap \<Rightarrow> proxy \<Rightarrow> proxy" where
  "adopt smap p = p\<lparr>Url := DirectURL (ProxySI smap), Smap := Some smap\<rparr>"

definition detectPrimary ::
  "(event list \<Rightarrow> string \<Rightarrow> error + Smap) \<Rightarrow> proxy \<Rightarrow> event list
    \<Rightarrow> error option \<times> proxy \<times> event list" where
  "detectPrimary get p tr =
     (case Smap p of
        None \<Rightarrow> (Some EmptyClusterMap, p, tr)
      | Some s \<Rightarrow>
          if length (Pmap s) + length (Tmap s) = 0 then (Some EmptyClusterMap, p, tr)
          else (case probeLoop get (Url p) (map snd (Pmap s)) tr of
                  (Some smap, tr1) \<Rightarrow> (None, adopt smap p, tr1)
                | (None, tr1) \<Rightarrow>
                    (case probeLoop get (Url p) (map snd (Tmap s)) tr1 of
                       (Some smap, tr2) \<Rightarrow> (None, adopt smap p, tr2)
                     | (None, tr2) \<Rightarrow> (Some PrimaryDetectionFailed, p, tr2))))"

text \<open>
  In the words of the spec: the members that a detection probes, in the order of the
  two passes (proxy-role members, then storage-role members), without those whose
  address is the tracked URL; the answer of the \<open>j\<close>-th of them, asked after the
  \<open>j\<close> probes before it; and whether an answer is a cluster map whose primary is not
  the tracked URL.
\<close>

definition candidates :: "proxy \<Rightarrow> Smap \<Rightarrow> string list" where
  "candidates p s = filter (\<lambda>u. u \<noteq> Url p) (map (DirectURL \<circ> snd) (Pmap s @ Tmap s))"

definition answer ::
  "(event list \<Rightarrow> string \<Rightarrow> error + Smap) \<Rightarrow> event list \<Rightarrow> string list \<Rightarrow> nat \<Rightarrow> error + Smap" where
  "answer get tr us j = get (tr @ map GetSmap (take j us)) (us ! j)"

definition differs :: "string \<Rightarrow> error + Smap \<Rightarrow> bool" where
  "differs url r = (case r of Inl err \<Rightarrow> False | Inr smap \<Rightarrow> DirectURL (ProxySI smap) \<noteq> url)"

section \<open>Replication task\<close>

text \<open>
  The sweep of \<^verbatim>\<open>sendTokensToProxy\<close>: the loop visits the entries of the token map,
  deletes from the map an entry whose expiry is before the clock, and appends the
  signed string of every other entry. \<open>clk k\<close> is the value of the \<open>k\<close>-th call of
  \<^verbatim>\<open>time.Now()\<close>, one per entry.
\<close>

fun sweepTokens ::
  "(nat \<Rightarrow> time) \<Rightarrow> nat \<Rightarrow> (string \<times> tokenInfo) list \<Rightarrow> (string \<times> tokenInfo) list
    \<Rightarrow> string list \<Rightarrow> (string \<times> tokenInfo) list \<times> string list" where
  "sweepTokens clk k [] tokmap acc = (tokmap, acc)"
| "sweepTokens clk k ((uid, tokenRec) # rest) tokmap acc =
     (if Expires tokenRec < clk k
      then sweepTokens clk (Suc k) rest (AList.delete uid tokmap) acc
      else sweepTokens clk (Suc k) rest tokmap (acc @ [Token tokenRec]))"

text \<open>The part of \<^verbatim>\<open>sendTokensToProxy\<close> under the token lock: the list and the manager.\<close>

definition tokenSnapshot :: "(nat \<Rightarrow> time) \<Rightarrow> userManager \<Rightarrow> TokenList \<times> userManager" where
  "tokenSnapshot clk m =
     (case sweepTokens clk 0 (tokens m) (tokens m) [] of
        (tokmap, toks) \<Rightarrow> (\<lparr>Tokens = toks, Version = version m\<rparr>, m\<lparr>tokens := tokmap\<rparr>))"

definition failedResponse :: "error + nat \<Rightarrow> bool" where
  "failedResponse r = (case r of Inl err \<Rightarrow> True | Inr code \<Rightarrow> 400 \<le> code)"

text \<open>
  The delivery loop \<^verbatim>\<open>for { ... }\<close>. It may run for ever (every delivery fails and
  every detection finds a new primary), so its result is an option: \<open>None\<close> when the
  loop does not end.
\<close>

partial_function (option) deliverLoop ::
  "netenv \<Rightarrow> TokenList \<Rightarrow> proxy \<Rightarrow> event list \<Rightarrow> (proxy \<times> event list) option" where
  "deliverLoop N tokenList p tr =
     (let url = Url p @ ''/'' @ Rversion N @ ''/'' @ Rtokens N
      in case NewRequest N url of
           Some err \<Rightarrow> Some (p, tr)
         | None \<Rightarrow>
             if failedResponse (Do N tr url tokenList)
             then (case detectPrimary (GetClusterMap N) p (tr @ [Post url tokenList]) of
                     (Some err, p', tr') \<Rightarrow> Some (p', tr')
                   | (None, p', tr') \<Rightarrow> deliverLoop N tokenList p' (tr' @ [SaveSmap p']))
             else Some (p, tr @ [Post url tokenList]))"

definition sendTokensToProxy ::
  "netenv \<Rightarrow> (nat \<Rightarrow> time) \<Rightarrow> userManager \<Rightarrow> event list
    \<Rightarrow> (userManager \<times> event list) option" where
  "sendTokensToProxy N clk m tr =
     (if Url (proxy m) = [] then Some (m, tr)
      else (case tokenSnapshot clk m of
              (tokenList, m1) \<Rightarrow>
                (case deliverLoop N tokenList (proxy m1)
                        (tr @ [SaveTokens (Path m1 @ ''.tokens'') tokenList]) of
                   None \<Rightarrow> None
                 | Some (p', tr') \<Rightarrow> Some (m1\<lparr>proxy := p'\<rparr>, tr'))))"

text \<open>
  In the words of the spec: the entries of a token map that are not expired, each
  compared with the clock as read when the sweep visits it.
\<close>

definition notExpired :: "(nat \<Rightarrow> time) \<Rightarrow> (string \<times> tokenInfo) list \<Rightarrow> (string \<times> tokenInfo) list" where
  "notExpired clk ts =
     map snd (filter (\<lambda>(k, uid, tokenRec). \<not> Expires tokenRec < clk k) (enumerate 0 ts))"

text \<open>The keys that the sweep deletes: those of the entries it finds expired.\<close>

definition expiredKeys :: "(nat \<Rightarrow> time) \<Rightarrow> nat \<Rightarrow> (string \<times> tokenInfo) list \<Rightarrow> string set" where
  "expiredKeys clk k ts =
     set (map (\<lambda>(j, uid, tokenRec). uid)
            (filter (\<lambda>(j, uid, tokenRec). Expires tokenRec < clk j) (enumerate k ts)))"

section \<open>Package dfc: the token list on the proxy\<close>

record authRec =
  userID :: string
  issued :: time
  expires :: time
  creds :: "(string \<times> string) list"

definition decryptToken :: "lib \<Rightarrow> string \<Rightarrow> string \<Rightarrow> error + authRec" where
  "decryptToken L secret tokenStr =
     (case jwtParse L tokenStr (keyFunc secret) of
        Inl err \<Rightarrow> Inl err
      | Inr token \<Rightarrow>
          (case Claims token of
             OtherClaims \<Rightarrow> Inl InvalidToken
           | MapClaims c \<Rightarrow>
               if \<not> Valid token then Inl InvalidToken
               else (case assertString (map_of c ''username'') of
                 None \<Rightarrow> Inl InvalidToken
               | Some uid \<Rightarrow>
                   (case assertString (map_of c ''issued'') of
                      None \<Rightarrow> Inl InvalidToken
                    | Some issueStr \<Rightarrow>
                        (case timeParse L issueStr of
                           None \<Rightarrow> Inl InvalidToken
                         | Some iss \<Rightarrow>
                             (case assertString (map_of c ''expires'') of
                                None \<Rightarrow> Inl InvalidToken
                              | Some expireStr \<Rightarrow>
                                  (case timeParse L expireStr of
                                     None \<Rightarrow> Inl InvalidToken
                                   | Some exp \<Rightarrow>
                                       Inr \<lparr>userID = uid, issued = iss, expires = exp,
                                            creds = (case assertStrMap (map_of c ''creds'') of
                                                       None \<Rightarrow> []
                                                     | Some cr \<Rightarrow> cr)\<rparr>)))))))"

text \<open>The loop of \<^verbatim>\<open>newAuthList\<close>: it returns at the first token that does not decode.\<close>

fun authLoop ::
  "(string \<Rightarrow> error + authRec) \<Rightarrow> string list \<Rightarrow> (string \<times> authRec) list
    \<Rightarrow> error + (string \<times> authRec) list" where
  "authLoop dec [] auth = Inr auth"
| "authLoop dec (tokenStr # rest) auth =
     (case dec tokenStr of
        Inl err \<Rightarrow> Inl err
      | Inr r \<Rightarrow> authLoop dec rest (AList.update tokenStr r auth))"

text \<open>
  \<^verbatim>\<open>newAuthList\<close> returns three values: the map (\<open>None\<close> is the nil map), the version
  and the error (\<open>None\<close> is nil). The argument is a pointer, \<open>None\<close> when nil.
\<close>

definition newAuthList ::
  "lib \<Rightarrow> string \<Rightarrow> TokenList option
    \<Rightarrow> (string \<times> authRec) list option \<times> int64 \<times> error option" where
  "newAuthList L secret tokenList =
     (case tokenList of
        None \<Rightarrow> (Some [], 1, None)
      | Some tlist \<Rightarrow>
          if length (Tokens tlist) = 0 then (Some [], 1, None)
          else (case authLoop (decryptToken L secret) (Tokens tlist) [] of
                  Inl err \<Rightarrow> (None, 0, Some err)
                | Inr auth \<Rightarrow> (Some auth, Version tlist, None)))"

section \<open>Example states\<close>

text \<open>
  A small library for the examples: four token strings with their decoded form, a time
  parser that knows two stamps, and a base64 that prefixes its argument.
\<close>

definition exampleTokens :: "(string \<times> jwtToken) list" where
  "exampleTokens =
     [(''tokenA'', \<lparr>Method = SigningMethodHMAC,
                    Claims = MapClaims [(''username'', VString ''user1''),
                                        (''issued'', VString ''t100''),
                                        (''expires'', VString ''t1900''),
                                        (''creds'', VObject [(''aws'', VString ''key'')])],
                    Valid = True\<rparr>),
      (''tokenNoUser'', \<lparr>Method = SigningMethodHMAC,
                    Claims = MapClaims [(''issued'', VString ''t100''),
                                        (''expires'', VString ''t1900'')],
                    Valid = True\<rparr>),
      (''tokenBadIssued'', \<lparr>Method = SigningMethodHMAC,
                    Claims = MapClaims [(''username'', VString ''user1''),
                                        (''issued'', VNumber 100),
                                        (''expires'', VString ''t1900'')],
                    Valid = True\<rparr>),
      (''tokenBadExpires'', \<lparr>Method = SigningMethodHMAC,
                    Claims = MapClaims [(''username'', VString ''user1''),
                                        (''issued'', VString ''t100''),
                                        (''expires'', VString ''soon'')],
                    Valid = True\<rparr>)]"

definition exampleLib :: lib where
  "exampleLib =
     \<lparr>jwtParse = (\<lambda>s kf.
        case map_of exampleTokens s of
          None \<Rightarrow> Inl (LibraryError ''token contains an invalid number of segments'')
        | Some t \<Rightarrow>
            (case kf t of
               Inl e \<Rightarrow> Inl e
             | Inr key \<Rightarrow> if key = ''secret'' then Inr t
                          else Inl (LibraryError ''signature is invalid''))),
      jwtSignedString = (\<lambda>c key. Inr (''jwt:'' @ key)),
      timeParse = (\<lambda>s. if s = ''t100'' then Some 100
                        else if s = ''t1900'' then Some 1900 else None),
      timeFormat = (\<lambda>t. ''time''),
      b64Encode = (\<lambda>s. ''b64:'' @ s),
      b64Decode = (\<lambda>s. if take 4 s = ''b64:'' then Some (drop 4 s) else None)\<rparr>"

definition exampleManager :: userManager where
  "exampleManager =
     \<lparr>Path = ''/tmp/users.json'',
      Users = [(''user1'', Some \<lparr>UserID = ''user1'', Password = ''b64:pass2'',
                                 passwordDecoded = ''pass2'', Creds = []\<rparr>),
               (''user2'', Some \<lparr>UserID = ''user2'', Password = ''b64:pass1'',
                                 passwordDecoded = ''pass1'', Creds = []\<rparr>),
               (''user3'', Some \<lparr>UserID = ''user3'', Password = ''b64:passs'',
                                 passwordDecoded = ''passs'', Creds = []\<rparr>)],
      UsersNil = False,
      tokens = [(''user1'', \<lparr>UserID_tok = ''user1'', Issued = 100, Expires = 1900,
                             Token = ''tokenA''\<rparr>),
                (''user2'', \<lparr>UserID_tok = ''user2'', Issued = 50, Expires = 1850,
                             Token = ''tokenB''\<rparr>),
                (''user9'', \<lparr>UserID_tok = ''user9'', Issued = 60, Expires = 1860,
                             Token = ''tokenC''\<rparr>)],
      version = 7,
      proxy = \<lparr>Url = [], Smap = None, configPath = ''/tmp/proxy.json''\<rparr>\<rparr>"

text \<open>The manager that \<^verbatim>\<open>newUserManager\<close> makes where no user file exists.\<close>

definition freshManager :: userManager where
  "freshManager =
     \<lparr>Path = ''/tmp/users.json'', Users = [], UsersNil = False, tokens = [], version = 1,
      proxy = \<lparr>Url = [], Smap = None, configPath = ''/tmp/proxy.json''\<rparr>\<rparr>"

definition exampleConf :: authConf where
  "exampleConf = \<lparr>Secret = ''secret'', ExpirePeriod = 1800\<rparr>"


text \<open>
  A cluster of two proxies and one target. The target answers a probe with a map whose
  primary is the second proxy; the proxies do not answer. Only the second proxy accepts
  a token list.
\<close>

definition exampleSmap :: Smap where
  "exampleSmap =
     \<lparr>Tmap = [(''t1'', \<lparr>DaemonID = ''t1'', DirectURL = ''http://t1''\<rparr>)],
      Pmap = [(''p1'', \<lparr>DaemonID = ''p1'', DirectURL = ''http://p1''\<rparr>),
              (''p2'', \<lparr>DaemonID = ''p2'', DirectURL = ''http://p2''\<rparr>)],
      ProxySI = \<lparr>DaemonID = ''p1'', DirectURL = ''http://p1''\<rparr>\<rparr>"

definition exampleNet :: netenv where
  "exampleNet =
     \<lparr>GetClusterMap = (\<lambda>tr url.
        if url = ''http://t1''
        then Inr (exampleSmap\<lparr>ProxySI := \<lparr>DaemonID = ''p2'', DirectURL = ''http://p2''\<rparr>\<rparr>)
        else Inl (LibraryError ''connection refused'')),
      NewRequest = (\<lambda>url. None),
      Do = (\<lambda>tr url body.
        if url = ''http://p2/v1/tokens'' then Inr 200
        else Inl (LibraryError ''connection refused'')),
      Rversion = ''v1'',
      Rtokens = ''tokens''\<rparr>"

definition exampleProxy :: proxy where
  "exampleProxy = \<lparr>Url = ''http://p1'', Smap = Some exampleSmap, configPath = ''/tmp/proxy.json''\<rparr>"

section \<open>Lemmas on the token map\<close>

lemma findToken_None:
  "findToken token ts = None \<longleftrightarrow> (\<forall>(uid, info) \<in> set ts. Token info \<noteq> token)"
  by (induction ts) (auto split: if_splits)

lemma findToken_Some:
  "findToken token ts = Some (uid, info) \<Longrightarrow> (uid, info) \<in> set ts \<and> Token info = token"
  by (induction ts) (auto split: if_splits)

lemma delete_changes: "(k, v) \<in> set al \<Longrightarrow> AList.delete k al \<noteq> al"
  by (metis AList.delete_notin_dom fst_conv image_eqI)

lemma set_delete_distinct:
  "distinct (map fst al) \<Longrightarrow> (k, v) \<in> set al \<Longrightarrow> set (AList.delete k al) = set al - {(k, v)}"
  by (induction al) (auto simp: AList.delete_eq rev_image_eqI)

section \<open>revokeToken\<close>

text \<open>
  Claim C5. \<^verbatim>\<open>revokeToken\<close> changes the token map, and changes the version counter,
  if and only if some entry of the token map stores exactly the signed string given. In
  that case it deletes one entry whose stored string is the argument (among distinct
  keys: that entry and no other) and adds one to the version; otherwise it returns the
  manager as it was, and starts no replication. The entry is found by comparing the
  stored string with the argument; no claim of the token is decoded.
\<close>

theorem revokeToken_removes_iff_match:
  fixes m :: userManager
  shows "((\<exists>(uid, info) \<in> set (tokens m). Token info = token) \<longrightarrow>
            (\<exists>uid info. (uid, info) \<in> set (tokens m) \<and> Token info = token \<and>
               revokeToken token m =
                 (m\<lparr>tokens := AList.delete uid (tokens m), version := version m + 1\<rparr>, True) \<and>
               (distinct (map fst (tokens m)) \<longrightarrow>
                  set (AList.delete uid (tokens m)) = set (tokens m) - {(uid, info)})))
       \<and> (\<not> (\<exists>(uid, info) \<in> set (tokens m). Token info = token) \<longrightarrow>
            revokeToken token m = (m, False))
       \<and> (tokens (fst (revokeToken token m)) \<noteq> tokens m
            \<longleftrightarrow> (\<exists>(uid, info) \<in> set (tokens m). Token info = token))
       \<and> (version (fst (revokeToken token m)) \<noteq> version m
            \<longleftrightarrow> (\<exists>(uid, info) \<in> set (tokens m). Token info = token))"
proof (cases "findToken token (tokens m)")
  case None
  then have no: "\<not> (\<exists>(uid, info) \<in> set (tokens m). Token info = token)"
    by (auto simp: findToken_None)
  from None have "revokeToken token m = (m, False)"
    by (simp add: revokeToken_def)
  with no show ?thesis by simp
next
  case (Some p)
  obtain uid info where p: "p = (uid, info)" by (cases p)
  from Some p have mem: "(uid, info) \<in> set (tokens m)" and tok: "Token info = token"
    using findToken_Some by blast+
  have yes: "\<exists>(uid, info) \<in> set (tokens m). Token info = token"
    using mem tok by blast
  have r: "revokeToken token m =
      (m\<lparr>tokens := AList.delete uid (tokens m), version := version m + 1\<rparr>, True)"
    using Some p by (simp add: revokeToken_def)
  have d: "distinct (map fst (tokens m)) \<longrightarrow>
      set (AList.delete uid (tokens m)) = set (tokens m) - {(uid, info)}"
    using mem by (simp add: set_delete_distinct)
  have "tokens (fst (revokeToken token m)) \<noteq> tokens m"
    using r delete_changes [OF mem] by simp
  moreover have "version (fst (revokeToken token m)) \<noteq> version m"
    using r by simp
  ultimately show ?thesis using yes r mem tok d by blast
qed

theorem revokeToken_removes_iff_match_witness:
  "revokeToken ''tokenB'' exampleManager =
     (exampleManager\<lparr>tokens := AList.delete ''user2'' (tokens exampleManager), version := 8\<rparr>,
      True)
   \<and> distinct (map fst (tokens exampleManager))
   \<and> set (AList.delete ''user2'' (tokens exampleManager))
       = set (tokens exampleManager)
         - {(''user2'', \<lparr>UserID_tok = ''user2'', Issued = 50, Expires = 1850,
                         Token = ''tokenB''\<rparr>)}
   \<and> revokeToken ''tokenZ'' exampleManager = (exampleManager, False)"
  using revokeToken_removes_iff_match [of exampleManager "''tokenB''"]
    revokeToken_removes_iff_match [of exampleManager "''tokenZ''"]
  by (auto simp: exampleManager_def revokeToken_def)

section \<open>addUser and delUser\<close>

lemma addUser_rejected:
  "uid = [] \<or> pw = [] \<Longrightarrow> addUser L S uid pw m = (Some InvalidCredentials, m)"
  "uid \<noteq> [] \<Longrightarrow> pw \<noteq> [] \<Longrightarrow> map_of (Users m) uid \<noteq> None
     \<Longrightarrow> addUser L S uid pw m = (Some (AlreadyRegistered uid), m)"
  by (auto simp: addUser_def)

lemma addUser_nil_map:
  "uid \<noteq> [] \<Longrightarrow> pw \<noteq> [] \<Longrightarrow> map_of (Users m) uid = None \<Longrightarrow> UsersNil m
     \<Longrightarrow> addUser L S uid pw m = (Some NilMapAssignment, m)"
  by (simp add: addUser_def)

lemma addUser_accepted:
  assumes "uid \<noteq> []" "pw \<noteq> []" "map_of (Users m) uid = None" "\<not> UsersNil m"
  shows "fst (addUser L S uid pw m) = saveUsers S (snd (addUser L S uid pw m))"
    and "map_of (Users (snd (addUser L S uid pw m))) uid =
           Some (Some \<lparr>UserID = uid, Password = b64Encode L pw,
                        passwordDecoded = pw, Creds = []\<rparr>)"
    and "map_of (tokens (snd (addUser L S uid pw m))) uid = None"
    and "version (snd (addUser L S uid pw m)) = version m"
  using assms by (simp_all add: addUser_def Let_def AList.update_conv' AList.delete_conv')

lemma delUser_unknown:
  "map_of (Users m) uid = None \<Longrightarrow> delUser S uid m = (Some (UserNotExist uid), m, False)"
  by (simp add: delUser_def)

lemma delUser_known:
  assumes "map_of (Users m) uid \<noteq> None"
  shows "map_of (Users (fst (snd (delUser S uid m)))) uid = None"
    and "map_of (tokens (fst (snd (delUser S uid m)))) uid = None"
    and "version (fst (snd (delUser S uid m))) =
           (if map_of (tokens m) uid = None then version m else version m + 1)"
  using assms by (auto simp: delUser_def Let_def AList.delete_conv')

text \<open>
  Claim C1. The claim says that a successful \<^verbatim>\<open>addUser\<close> increments the version
  counter, and the test \<^verbatim>\<open>createUsers\<close> of the repository reports "Version must
  increase" unless the counter grew across each call. \<^verbatim>\<open>addUser\<close> has no statement
  that writes the counter. On the manager that start-up makes when no user file exists,
  registering \<^verbatim>\<open>user1\<close> with the secret \<^verbatim>\<open>pass2\<close> succeeds and creates the user, and
  the counter is 1 before and after.
\<close>

theorem addUser_fresh_version_unchanged:
  "addUser exampleLib (\<lambda>path us. None) ''user1'' ''pass2'' freshManager =
     (None,
      freshManager\<lparr>Users := [(''user1'', Some \<lparr>UserID = ''user1'', Password = ''b64:pass2'',
                                   passwordDecoded = ''pass2'', Creds = []\<rparr>)]\<rparr>)
   \<and> version (snd (addUser exampleLib (\<lambda>path us. None) ''user1'' ''pass2'' freshManager))
       = version freshManager
   \<and> version freshManager = 1"
  by (simp add: addUser_def saveUsers_def freshManager_def exampleLib_def Let_def)

text \<open>
  Claim C2. The claim says that \<^verbatim>\<open>delUser\<close> of a registered user who has no token
  increments the version counter once, and the test \<^verbatim>\<open>deleteUsers\<close> of the repository
  reports "Version must increase" unless the counter grew across each deletion.
  \<^verbatim>\<open>delUser\<close> increments the counter only where the token map held an entry for the
  user. In the example manager \<^verbatim>\<open>user3\<close> is registered and has no token: the call
  succeeds and removes the user, and the counter is the same before and after.
\<close>

theorem delUser_no_token_version_unchanged:
  "map_of (Users exampleManager) ''user3'' \<noteq> None
   \<and> map_of (tokens exampleManager) ''user3'' = None
   \<and> delUser (\<lambda>path us. None) ''user3'' exampleManager =
       (None, exampleManager\<lparr>Users := AList.delete ''user3'' (Users exampleManager)\<rparr>, False)
   \<and> version (fst (snd (delUser (\<lambda>path us. None) ''user3'' exampleManager)))
       = version exampleManager"
  by (simp add: delUser_def saveUsers_def exampleManager_def Let_def)

section \<open>issueToken\<close>

text \<open>
  Claim C3. For a registered user whose stored token expires after the clock,
  \<^verbatim>\<open>issueToken\<close> with the right secret returns the stored signed string and the
  manager as it was (token map and version included), and starts no replication. For a
  user ID that is not registered it fails with "Invalid credentials", and for a wrong
  secret with "Invalid username or password"; in both cases the manager is returned as
  it was.
\<close>

theorem issueToken_reissue_and_reject:
  fixes m :: userManager
  shows "(map_of (Users m) uid = Some (Some user) \<and> passwordDecoded user = pwd \<and>
          map_of (tokens m) uid = Some tok \<and> now < Expires tok
            \<longrightarrow> issueToken L conf now iss uid pwd m = (Inr (Token tok), m, False))
       \<and> (map_of (Users m) uid = None
            \<longrightarrow> issueToken L conf now iss uid pwd m = (Inl InvalidCredentials, m, False))
       \<and> (map_of (Users m) uid = Some (Some user) \<and> passwordDecoded user \<noteq> pwd
            \<longrightarrow> issueToken L conf now iss uid pwd m = (Inl InvalidUserOrPassword, m, False))"
  by (simp add: issueToken_def)

theorem issueToken_reissue_and_reject_witness:
  "issueToken exampleLib exampleConf 1000 1001 ''user1'' ''pass2'' exampleManager
     = (Inr ''tokenA'', exampleManager, False)
   \<and> issueToken exampleLib exampleConf 1000 1001 ''nobody'' ''pass2'' exampleManager
     = (Inl InvalidCredentials, exampleManager, False)
   \<and> issueToken exampleLib exampleConf 1000 1001 ''user1'' ''pass1'' exampleManager
     = (Inl InvalidUserOrPassword, exampleManager, False)"
  using issueToken_reissue_and_reject
          [where m = exampleManager and uid = "''user1''" and pwd = "''pass2''" and now = 1000
             and user = "\<lparr>UserID = ''user1'', Password = ''b64:pass2'',
                          passwordDecoded = ''pass2'', Creds = []\<rparr>"
             and tok = "\<lparr>UserID_tok = ''user1'', Issued = 100, Expires = 1900,
                         Token = ''tokenA''\<rparr>"
             and L = exampleLib and conf = exampleConf and iss = 1001]
        issueToken_reissue_and_reject
          [where m = exampleManager and uid = "''nobody''" and pwd = "''pass2''" and now = 1000
             and L = exampleLib and conf = exampleConf and iss = 1001]
        issueToken_reissue_and_reject
          [where m = exampleManager and uid = "''user1''" and pwd = "''pass1''" and now = 1000
             and user = "\<lparr>UserID = ''user1'', Password = ''b64:pass2'',
                          passwordDecoded = ''pass2'', Creds = []\<rparr>"
             and L = exampleLib and conf = exampleConf and iss = 1001]
  by (simp add: exampleManager_def)

section \<open>userByToken\<close>

text \<open>
  Claim C4. Let a signed string be given. If the token map stores it and every entry
  that stores it expires before the clock, \<^verbatim>\<open>userByToken\<close> fails with "Token
  expired" and returns the manager with one such entry deleted and the same version.
  If no entry stores it, the call fails with "Token not found" and the manager is as it
  was. If the map stores it, not expired, under a user ID that the user map lacks, the
  call fails with "Invalid token". (A token string names one entry of the map in every
  state the server reaches; the statement covers lists that repeat a string as well.)
\<close>

theorem userByToken_errors:
  fixes m :: userManager
  shows "((\<exists>(uid, info) \<in> set (tokens m). Token info = token) \<and>
          (\<forall>(uid, info) \<in> set (tokens m). Token info = token \<longrightarrow> Expires info < now)
            \<longrightarrow> (\<exists>uid info. (uid, info) \<in> set (tokens m) \<and> Token info = token \<and>
                   userByToken now token m =
                     (Inl TokenExpired, m\<lparr>tokens := AList.delete uid (tokens m)\<rparr>) \<and>
                   map_of (tokens (snd (userByToken now token m))) uid = None \<and>
                   version (snd (userByToken now token m)) = version m))
       \<and> ((\<forall>(uid, info) \<in> set (tokens m). Token info \<noteq> token)
            \<longrightarrow> userByToken now token m = (Inl TokenNotFound, m))
       \<and> ((\<exists>(uid, info) \<in> set (tokens m). Token info = token) \<and>
          (\<forall>(uid, info) \<in> set (tokens m). Token info = token \<longrightarrow>
               \<not> Expires info < now \<and> map_of (Users m) uid = None)
            \<longrightarrow> userByToken now token m = (Inl InvalidToken, m))"
proof (cases "findToken token (tokens m)")
  case None
  then have "\<forall>(uid, info) \<in> set (tokens m). Token info \<noteq> token"
    by (simp add: findToken_None)
  moreover from None have "userByToken now token m = (Inl TokenNotFound, m)"
    by (simp add: userByToken_def)
  ultimately show ?thesis by auto
next
  case (Some p)
  obtain uid info where p: "p = (uid, info)" by (cases p)
  from Some p have mem: "(uid, info) \<in> set (tokens m)" and tok: "Token info = token"
    using findToken_Some by blast+
  have e: "userByToken now token m =
        (Inl TokenExpired, m\<lparr>tokens := AList.delete uid (tokens m)\<rparr>) \<and>
      map_of (tokens (snd (userByToken now token m))) uid = None \<and>
      version (snd (userByToken now token m)) = version m" if "Expires info < now"
    using Some p that by (simp add: userByToken_def AList.delete_conv')
  have i: "userByToken now token m = (Inl InvalidToken, m)"
    if "\<not> Expires info < now" "map_of (Users m) uid = None"
    using Some p that by (simp add: userByToken_def)
  show ?thesis
  proof (intro conjI impI)
    assume "(\<exists>(uid, info) \<in> set (tokens m). Token info = token) \<and>
          (\<forall>(uid, info) \<in> set (tokens m). Token info = token \<longrightarrow> Expires info < now)"
    then have "Expires info < now" using mem tok by blast
    then show "\<exists>uid info. (uid, info) \<in> set (tokens m) \<and> Token info = token \<and>
                   userByToken now token m =
                     (Inl TokenExpired, m\<lparr>tokens := AList.delete uid (tokens m)\<rparr>) \<and>
                   map_of (tokens (snd (userByToken now token m))) uid = None \<and>
                   version (snd (userByToken now token m)) = version m"
      using e mem tok by blast
  next
    assume "\<forall>(uid, info) \<in> set (tokens m). Token info \<noteq> token"
    then show "userByToken now token m = (Inl TokenNotFound, m)" using mem tok by blast
  next
    assume "(\<exists>(uid, info) \<in> set (tokens m). Token info = token) \<and>
          (\<forall>(uid, info) \<in> set (tokens m). Token info = token \<longrightarrow>
               \<not> Expires info < now \<and> map_of (Users m) uid = None)"
    then have "\<not> Expires info < now \<and> map_of (Users m) uid = None" using mem tok by blast
    then show "userByToken now token m = (Inl InvalidToken, m)" using i by blast
  qed
qed

theorem userByToken_errors_witness:
  "userByToken 2000 ''tokenA'' exampleManager =
     (Inl TokenExpired, exampleManager\<lparr>tokens := AList.delete ''user1'' (tokens exampleManager)\<rparr>)
   \<and> userByToken 2000 ''tokenZ'' exampleManager = (Inl TokenNotFound, exampleManager)
   \<and> userByToken 1000 ''tokenC'' exampleManager = (Inl InvalidToken, exampleManager)"
  using userByToken_errors [of exampleManager "''tokenA''" 2000]
    userByToken_errors [of exampleManager "''tokenZ''" 2000]
    userByToken_errors [of exampleManager "''tokenC''" 1000]
  by (auto simp: exampleManager_def)

section \<open>Decoding tokens on the proxy\<close>

lemma assertString_Some: "assertString x = Some s \<longleftrightarrow> x = Some (VString s)"
  by (cases x rule: assertString.cases) auto

lemma assertString_None: "assertString x = None \<longleftrightarrow> (\<nexists>s. x = Some (VString s))"
  by (cases x rule: assertString.cases) auto

lemma assertStrMap_Some: "assertStrMap x = Some c \<longleftrightarrow> x = Some (VStrMap c)"
  by (cases x rule: assertStrMap.cases) auto

lemma decryptToken_unparsed:
  "jwtParse L s (keyFunc secret) = Inl err \<Longrightarrow> decryptToken L secret s = Inl err"
  "jwtParse L s (keyFunc secret) = Inr token \<Longrightarrow> Claims token = OtherClaims \<or> \<not> Valid token
     \<Longrightarrow> decryptToken L secret s = Inl InvalidToken"
  by (auto simp: decryptToken_def split: claims.splits)

lemma decryptToken_parsed:
  assumes "jwtParse L s (keyFunc secret) = Inr token" "Claims token = MapClaims c" "Valid token"
  shows "decryptToken L secret s =
     (case assertString (map_of c ''username'') of
        None \<Rightarrow> Inl InvalidToken
      | Some uid \<Rightarrow>
          (case assertString (map_of c ''issued'') of
             None \<Rightarrow> Inl InvalidToken
           | Some issueStr \<Rightarrow>
               (case timeParse L issueStr of
                  None \<Rightarrow> Inl InvalidToken
                | Some iss \<Rightarrow>
                    (case assertString (map_of c ''expires'') of
                       None \<Rightarrow> Inl InvalidToken
                     | Some expireStr \<Rightarrow>
                         (case timeParse L expireStr of
                            None \<Rightarrow> Inl InvalidToken
                          | Some exp \<Rightarrow>
                              Inr \<lparr>userID = uid, issued = iss, expires = exp,
                                   creds = (case assertStrMap (map_of c ''creds'') of
                                              None \<Rightarrow> []
                                            | Some cr \<Rightarrow> cr)\<rparr>)))))"
  using assms by (simp add: decryptToken_def)

text \<open>
  Claim C10. Let \<^verbatim>\<open>jwt.Parse\<close> accept the token string with a valid claim map.
  \<^verbatim>\<open>decryptToken\<close> fails with "Invalid token" when the claim \<^verbatim>\<open>username\<close> is missing
  or is not a string, and when \<^verbatim>\<open>issued\<close> or \<^verbatim>\<open>expires\<close> is missing, is not a
  string, or is a string that \<^verbatim>\<open>time.Parse\<close> rejects. When the three claims are
  strings and the two stamps parse, it succeeds with these three values whatever the
  claim \<^verbatim>\<open>creds\<close> is: the record carries the map when the claim is a
  \<^verbatim>\<open>map[string]string\<close>, and the empty map when the claim is missing or of any other
  type.
\<close>

theorem decryptToken_claims:
  "jwtParse L s (keyFunc secret) = Inr token \<and> Claims token = MapClaims c \<and> Valid token \<longrightarrow>
     ((\<nexists>u. map_of c ''username'' = Some (VString u))
        \<longrightarrow> decryptToken L secret s = Inl InvalidToken)
   \<and> ((\<nexists>x. map_of c ''issued'' = Some (VString x) \<and> timeParse L x \<noteq> None)
        \<longrightarrow> decryptToken L secret s = Inl InvalidToken)
   \<and> ((\<nexists>x. map_of c ''expires'' = Some (VString x) \<and> timeParse L x \<noteq> None)
        \<longrightarrow> decryptToken L secret s = Inl InvalidToken)
   \<and> (\<forall>u x i y e.
         map_of c ''username'' = Some (VString u) \<and>
         map_of c ''issued'' = Some (VString x) \<and> timeParse L x = Some i \<and>
         map_of c ''expires'' = Some (VString y) \<and> timeParse L y = Some e
        \<longrightarrow> (\<exists>r. decryptToken L secret s = Inr r \<and>
                 userID r = u \<and> issued r = i \<and> expires r = e \<and>
                 ((\<nexists>cr. map_of c ''creds'' = Some (VStrMap cr)) \<longrightarrow> creds r = []) \<and>
                 (\<forall>cr. map_of c ''creds'' = Some (VStrMap cr) \<longrightarrow> creds r = cr)))"
proof (intro impI)
  assume a: "jwtParse L s (keyFunc secret) = Inr token \<and> Claims token = MapClaims c \<and> Valid token"
  note d = decryptToken_parsed [of L s secret token c]
  have 1: "decryptToken L secret s = Inl InvalidToken"
    if "\<nexists>u. map_of c ''username'' = Some (VString u)"
  proof -
    from that have "assertString (map_of c ''username'') = None"
      by (simp add: assertString_None)
    with a d show ?thesis by simp
  qed
  have 2: "decryptToken L secret s = Inl InvalidToken"
    if "\<nexists>x. map_of c ''issued'' = Some (VString x) \<and> timeParse L x \<noteq> None"
    using a that d by (auto simp: assertString_Some split: option.splits)
  have 3: "decryptToken L secret s = Inl InvalidToken"
    if "\<nexists>x. map_of c ''expires'' = Some (VString x) \<and> timeParse L x \<noteq> None"
    using a that d by (auto simp: assertString_Some split: option.splits)
  have 4: "\<exists>r. decryptToken L secret s = Inr r \<and>
                 userID r = u \<and> issued r = i \<and> expires r = e \<and>
                 ((\<nexists>cr. map_of c ''creds'' = Some (VStrMap cr)) \<longrightarrow> creds r = []) \<and>
                 (\<forall>cr. map_of c ''creds'' = Some (VStrMap cr) \<longrightarrow> creds r = cr)"
    if "map_of c ''username'' = Some (VString u) \<and>
         map_of c ''issued'' = Some (VString x) \<and> timeParse L x = Some i \<and>
         map_of c ''expires'' = Some (VString y) \<and> timeParse L y = Some e" for u x i y e
    using a that d by (auto simp: assertStrMap_Some split: option.splits)
  from 1 2 3 4 show "((\<nexists>u. map_of c ''username'' = Some (VString u))
        \<longrightarrow> decryptToken L secret s = Inl InvalidToken)
   \<and> ((\<nexists>x. map_of c ''issued'' = Some (VString x) \<and> timeParse L x \<noteq> None)
        \<longrightarrow> decryptToken L secret s = Inl InvalidToken)
   \<and> ((\<nexists>x. map_of c ''expires'' = Some (VString x) \<and> timeParse L x \<noteq> None)
        \<longrightarrow> decryptToken L secret s = Inl InvalidToken)
   \<and> (\<forall>u x i y e.
         map_of c ''username'' = Some (VString u) \<and>
         map_of c ''issued'' = Some (VString x) \<and> timeParse L x = Some i \<and>
         map_of c ''expires'' = Some (VString y) \<and> timeParse L y = Some e
        \<longrightarrow> (\<exists>r. decryptToken L secret s = Inr r \<and>
                 userID r = u \<and> issued r = i \<and> expires r = e \<and>
                 ((\<nexists>cr. map_of c ''creds'' = Some (VStrMap cr)) \<longrightarrow> creds r = []) \<and>
                 (\<forall>cr. map_of c ''creds'' = Some (VStrMap cr) \<longrightarrow> creds r = cr)))"
    by blast
qed

theorem decryptToken_claims_witness:
  "decryptToken exampleLib ''secret'' ''tokenA''
     = Inr \<lparr>userID = ''user1'', issued = 100, expires = 1900, creds = []\<rparr>
   \<and> decryptToken exampleLib ''secret'' ''tokenNoUser'' = Inl InvalidToken
   \<and> decryptToken exampleLib ''secret'' ''tokenBadIssued'' = Inl InvalidToken
   \<and> decryptToken exampleLib ''secret'' ''tokenBadExpires'' = Inl InvalidToken"
proof -
  have p: "jwtParse exampleLib s (keyFunc ''secret'') = Inr t"
    if "map_of exampleTokens s = Some t" "Method t = SigningMethodHMAC" for s t
    using that by (simp add: exampleLib_def keyFunc_def)
  have tp: "timeParse exampleLib = (\<lambda>s. if s = ''t100'' then Some 100
                        else if s = ''t1900'' then Some 1900 else None)"
    by (simp add: exampleLib_def)
  have "\<exists>r. decryptToken exampleLib ''secret'' ''tokenA'' = Inr r \<and>
          userID r = ''user1'' \<and> issued r = 100 \<and> expires r = 1900 \<and> creds r = []"
    using decryptToken_claims [where L = exampleLib and secret = "''secret''" and s = "''tokenA''"
       and token = "the (map_of exampleTokens ''tokenA'')"
       and c = "[(''username'', VString ''user1''), (''issued'', VString ''t100''),
                 (''expires'', VString ''t1900''), (''creds'', VObject [(''aws'', VString ''key'')])]"]
      p [of "''tokenA''" "the (map_of exampleTokens ''tokenA'')"]
    by (simp add: exampleTokens_def tp)
  then have 1: "decryptToken exampleLib ''secret'' ''tokenA''
     = Inr \<lparr>userID = ''user1'', issued = 100, expires = 1900, creds = []\<rparr>"
    by auto
  have 2: "decryptToken exampleLib ''secret'' ''tokenNoUser'' = Inl InvalidToken"
    using decryptToken_claims [where L = exampleLib and secret = "''secret''" and s = "''tokenNoUser''"
       and token = "the (map_of exampleTokens ''tokenNoUser'')"
       and c = "[(''issued'', VString ''t100''), (''expires'', VString ''t1900'')]"]
      p [of "''tokenNoUser''" "the (map_of exampleTokens ''tokenNoUser'')"]
    by (simp add: exampleTokens_def)
  have 3: "decryptToken exampleLib ''secret'' ''tokenBadIssued'' = Inl InvalidToken"
    using decryptToken_claims [where L = exampleLib and secret = "''secret''" and s = "''tokenBadIssued''"
       and token = "the (map_of exampleTokens ''tokenBadIssued'')"
       and c = "[(''username'', VString ''user1''), (''issued'', VNumber 100),
                 (''expires'', VString ''t1900'')]"]
      p [of "''tokenBadIssued''" "the (map_of exampleTokens ''tokenBadIssued'')"]
    by (simp add: exampleTokens_def)
  have 4: "decryptToken exampleLib ''secret'' ''tokenBadExpires'' = Inl InvalidToken"
    using decryptToken_claims [where L = exampleLib and secret = "''secret''" and s = "''tokenBadExpires''"
       and token = "the (map_of exampleTokens ''tokenBadExpires'')"
       and c = "[(''username'', VString ''user1''), (''issued'', VString ''t100''),
                 (''expires'', VString ''soon'')]"]
      p [of "''tokenBadExpires''" "the (map_of exampleTokens ''tokenBadExpires'')"]
    by (simp add: exampleTokens_def tp)
  from 1 2 3 4 show ?thesis by simp
qed

section \<open>newAuthList\<close>

lemma authLoop_fails:
  "\<exists>t \<in> set ts. isl (dec t) \<Longrightarrow>
     \<exists>err. authLoop dec ts auth = Inl err \<and> (\<exists>t \<in> set ts. dec t = Inl err)"
  by (induction ts arbitrary: auth) (auto split: sum.splits)

lemma authLoop_succeeds:
  "\<forall>t \<in> set ts. \<not> isl (dec t) \<Longrightarrow>
     \<exists>a. authLoop dec ts auth = Inr a \<and>
         (\<forall>t. map_of a t = (if t \<in> set ts then Some (projr (dec t)) else map_of auth t))"
proof (induction ts arbitrary: auth)
  case Nil
  then show ?case by simp
next
  case (Cons t ts)
  then obtain r where r: "dec t = Inr r" by (cases "dec t") auto
  from Cons.prems have "\<forall>t \<in> set ts. \<not> isl (dec t)" by simp
  from Cons.IH [OF this, of "AList.update t r auth"] obtain a where
    a: "authLoop dec ts (AList.update t r auth) = Inr a"
       "\<forall>t'. map_of a t' =
          (if t' \<in> set ts then Some (projr (dec t')) else map_of (AList.update t r auth) t')"
    by blast
  show ?case using r a by (auto simp: AList.update_conv')
qed

text \<open>
  Claim C9. \<^verbatim>\<open>newAuthList\<close> of the nil pointer, and of a list with no token, is the
  empty map with version 1 and no error. If some token string of the list does not
  decode, the result is the nil map, version 0 and the error of such a token: nothing of
  the tokens that did decode is returned. If the list is not empty and every token
  decodes, the result is the map from each token string to its decoded record, with the
  version of the list and no error.
\<close>

theorem newAuthList_all_or_nothing:
  "newAuthList L secret None = (Some [], 1, None)
   \<and> (Tokens tlist = [] \<longrightarrow> newAuthList L secret (Some tlist) = (Some [], 1, None))
   \<and> ((\<exists>t \<in> set (Tokens tlist). isl (decryptToken L secret t)) \<longrightarrow>
        (\<exists>err. newAuthList L secret (Some tlist) = (None, 0, Some err) \<and>
               (\<exists>t \<in> set (Tokens tlist). decryptToken L secret t = Inl err)))
   \<and> (Tokens tlist \<noteq> [] \<and> (\<forall>t \<in> set (Tokens tlist). \<not> isl (decryptToken L secret t)) \<longrightarrow>
        (\<exists>auth. newAuthList L secret (Some tlist) = (Some auth, Version tlist, None) \<and>
           (\<forall>t. map_of auth t =
              (if t \<in> set (Tokens tlist) then Some (projr (decryptToken L secret t)) else None))))"
proof (intro conjI impI)
  show "newAuthList L secret None = (Some [], 1, None)" by (simp add: newAuthList_def)
next
  assume "Tokens tlist = []"
  then show "newAuthList L secret (Some tlist) = (Some [], 1, None)" by (simp add: newAuthList_def)
next
  assume a: "\<exists>t \<in> set (Tokens tlist). isl (decryptToken L secret t)"
  then have ne: "Tokens tlist \<noteq> []" by auto
  from authLoop_fails [OF a, of "[]"] obtain err where
    "authLoop (decryptToken L secret) (Tokens tlist) [] = Inl err"
    "\<exists>t \<in> set (Tokens tlist). decryptToken L secret t = Inl err" by blast
  with ne show "\<exists>err. newAuthList L secret (Some tlist) = (None, 0, Some err) \<and>
               (\<exists>t \<in> set (Tokens tlist). decryptToken L secret t = Inl err)"
    by (simp add: newAuthList_def)
next
  assume a: "Tokens tlist \<noteq> [] \<and> (\<forall>t \<in> set (Tokens tlist). \<not> isl (decryptToken L secret t))"
  then have "\<forall>t \<in> set (Tokens tlist). \<not> isl (decryptToken L secret t)" by simp
  from authLoop_succeeds [OF this, of "[]"] obtain auth where
    "authLoop (decryptToken L secret) (Tokens tlist) [] = Inr auth"
    "\<forall>t. map_of auth t =
              (if t \<in> set (Tokens tlist) then Some (projr (decryptToken L secret t)) else None)"
    by auto
  with a show "\<exists>auth. newAuthList L secret (Some tlist) = (Some auth, Version tlist, None) \<and>
           (\<forall>t. map_of auth t =
              (if t \<in> set (Tokens tlist) then Some (projr (decryptToken L secret t)) else None))"
    by (simp add: newAuthList_def)
qed

lemma exampleLib_decrypt:
  "decryptToken exampleLib ''secret'' ''tokenA''
     = Inr \<lparr>userID = ''user1'', issued = 100, expires = 1900, creds = []\<rparr>"
  "decryptToken exampleLib ''secret'' ''tokenNoUser'' = Inl InvalidToken"
  by (simp_all add: decryptToken_def exampleLib_def exampleTokens_def keyFunc_def)

theorem newAuthList_all_or_nothing_witness:
  "newAuthList exampleLib ''secret'' (Some \<lparr>Tokens = [''tokenA'', ''tokenNoUser''], Version = 5\<rparr>)
     = (None, 0, Some InvalidToken)
   \<and> newAuthList exampleLib ''secret'' (Some \<lparr>Tokens = [], Version = 5\<rparr>) = (Some [], 1, None)
   \<and> (\<exists>auth. newAuthList exampleLib ''secret'' (Some \<lparr>Tokens = [''tokenA''], Version = 5\<rparr>)
          = (Some auth, 5, None)
        \<and> map_of auth ''tokenA''
          = Some \<lparr>userID = ''user1'', issued = 100, expires = 1900, creds = []\<rparr>)"
  using newAuthList_all_or_nothing [of exampleLib "''secret''"
          "\<lparr>Tokens = [''tokenA'', ''tokenNoUser''], Version = 5\<rparr>"]
    newAuthList_all_or_nothing [of exampleLib "''secret''" "\<lparr>Tokens = [], Version = 5\<rparr>"]
    newAuthList_all_or_nothing [of exampleLib "''secret''" "\<lparr>Tokens = [''tokenA''], Version = 5\<rparr>"]
  by (auto simp: exampleLib_decrypt)

section \<open>Start-up of the user manager\<close>





section \<open>The replication task\<close>

lemma expiredKeys_iff:
  "uid \<in> expiredKeys clk k ts \<longleftrightarrow>
     (\<exists>j r. (j, uid, r) \<in> set (enumerate k ts) \<and> Expires r < clk j)"
  unfolding expiredKeys_def by force

lemma expiredKeys_Nil: "expiredKeys clk k [] = {}"
  by (simp add: expiredKeys_def)

lemma expiredKeys_Cons:
  "expiredKeys clk k ((uid, r) # ts) =
     (if Expires r < clk k then insert uid (expiredKeys clk (Suc k) ts)
      else expiredKeys clk (Suc k) ts)"
  by (auto simp: expiredKeys_def)

lemma sweepTokens_list:
  "snd (sweepTokens clk k vs mp acc) =
     acc @ map (Token \<circ> snd \<circ> snd)
             (filter (\<lambda>(j, uid, r). \<not> Expires r < clk j) (enumerate k vs))"
  by (induction vs arbitrary: k mp acc) auto

lemma sweepTokens_map:
  "fst (sweepTokens clk k vs mp acc) = filter (\<lambda>(uid, r). uid \<notin> expiredKeys clk k vs) mp"
proof (induction vs arbitrary: k mp acc)
  case Nil
  then show ?case by (simp add: expiredKeys_Nil)
next
  case (Cons v vs)
  obtain uid r where v: "v = (uid, r)" by (cases v)
  show ?case
  proof (cases "Expires r < clk k")
    case True
    have "filter (\<lambda>(u, r). u \<notin> expiredKeys clk (Suc k) vs) (AList.delete uid mp)
        = filter (\<lambda>(u, r). u \<notin> insert uid (expiredKeys clk (Suc k) vs)) mp"
      by (auto simp: AList.delete_eq intro: filter_cong)
    with True v Cons.IH show ?thesis by (simp add: expiredKeys_Cons)
  next
    case False
    with v Cons.IH show ?thesis by (simp add: expiredKeys_Cons)
  qed
qed

lemma enumerate_key_unique:
  assumes "distinct (map fst ts)"
    and "(j, uid, r) \<in> set (enumerate k ts)" and "(j', uid, r') \<in> set (enumerate k ts)"
  shows "j = j' \<and> r = r'"
proof -
  from assms(2,3) have j: "k \<le> j" "j - k < length ts" "ts ! (j - k) = (uid, r)"
    and j': "k \<le> j'" "j' - k < length ts" "ts ! (j' - k) = (uid, r')"
    by (auto simp: in_set_enumerate_eq)
  then have "map fst ts ! (j - k) = map fst ts ! (j' - k)" by simp
  with assms(1) j j' have "j - k = j' - k"
    by (simp add: nth_eq_iff_index_eq del: nth_map)
  with j j' show ?thesis by auto
qed

lemma filter_expiredKeys:
  assumes "distinct (map fst ts)"
  shows "filter (\<lambda>(uid, r). uid \<notin> expiredKeys clk 0 ts) ts = notExpired clk ts"
proof -
  have "filter (\<lambda>(uid, r). uid \<notin> expiredKeys clk 0 ts) (map snd (enumerate 0 ts))
      = map snd (filter ((\<lambda>(uid, r). uid \<notin> expiredKeys clk 0 ts) \<circ> snd) (enumerate 0 ts))"
    by (simp only: filter_map)
  also have "filter ((\<lambda>(uid, r). uid \<notin> expiredKeys clk 0 ts) \<circ> snd) (enumerate 0 ts)
      = filter (\<lambda>(k, uid, r). \<not> Expires r < clk k) (enumerate 0 ts)"
  proof (rule filter_cong [OF refl])
    fix x assume x: "x \<in> set (enumerate 0 ts)"
    obtain j uid r where xe: "x = (j, uid, r)" by (cases x) auto
    have "uid \<in> expiredKeys clk 0 ts \<longleftrightarrow> Expires r < clk j"
    proof
      assume "uid \<in> expiredKeys clk 0 ts"
      then obtain j' r' where "(j', uid, r') \<in> set (enumerate 0 ts)" "Expires r' < clk j'"
        by (auto simp: expiredKeys_iff)
      with enumerate_key_unique [OF assms, of j uid r 0 j' r'] x xe
      show "Expires r < clk j" by auto
    next
      assume "Expires r < clk j"
      with x xe show "uid \<in> expiredKeys clk 0 ts" by (auto simp: expiredKeys_iff)
    qed
    with xe show "((\<lambda>(uid, r). uid \<notin> expiredKeys clk 0 ts) \<circ> snd) x
        = (case x of (k, uid, r) \<Rightarrow> \<not> Expires r < clk k)"
      by simp
  qed
  finally show ?thesis by (simp add: notExpired_def map_snd_enumerate)
qed

lemma tokenSnapshot_eq:
  assumes "distinct (map fst (tokens m))"
  shows "tokenSnapshot clk m =
     (\<lparr>Tokens = map (Token \<circ> snd) (notExpired clk (tokens m)), Version = version m\<rparr>,
      m\<lparr>tokens := notExpired clk (tokens m)\<rparr>)"
proof -
  obtain mp toks where s: "sweepTokens clk 0 (tokens m) (tokens m) [] = (mp, toks)"
    by (cases "sweepTokens clk 0 (tokens m) (tokens m) []")
  from s sweepTokens_map [of clk 0 "tokens m" "tokens m" "[]"] filter_expiredKeys [OF assms, of clk]
  have mp: "mp = notExpired clk (tokens m)" by simp
  from s sweepTokens_list [of clk 0 "tokens m" "tokens m" "[]"]
  have "toks = map (Token \<circ> snd) (notExpired clk (tokens m))"
    by (simp add: notExpired_def comp_def)
  with mp s show ?thesis by (simp add: tokenSnapshot_def)
qed

lemma notExpired_const:
  "notExpired (\<lambda>k. now) ts = filter (\<lambda>(uid, r). \<not> Expires r < now) ts"
proof -
  have "filter (\<lambda>(k, uid, r). \<not> Expires r < now) (enumerate 0 ts)
      = filter ((\<lambda>(uid, r). \<not> Expires r < now) \<circ> snd) (enumerate 0 ts)"
    by (rule filter_cong) auto
  then show ?thesis
    by (simp add: notExpired_def filter_map [symmetric] map_snd_enumerate del: filter_map)
qed


text \<open>
  Claim C7. Among distinct keys, the part of \<^verbatim>\<open>sendTokensToProxy\<close> under the
  token lock yields the list of the signed strings of exactly the entries that are not
  expired (expiry not before the clock read at the entry), tagged with the version of
  the manager, and leaves exactly these entries in the token map; the version of the
  manager is not changed. With an empty primary URL the function returns the manager
  and the trace of events as they were: no sweep, no file written, no request sent.
  With a non-empty URL every run that returns leaves the swept map and the old
  version, and a run whose first request is accepted returns after writing the token
  file and posting that list once.
\<close>

theorem sendTokensToProxy_snapshot:
  "(distinct (map fst (tokens m)) \<longrightarrow>
      tokenSnapshot clk m =
        (\<lparr>Tokens = map (Token \<circ> snd) (notExpired clk (tokens m)), Version = version m\<rparr>,
         m\<lparr>tokens := notExpired clk (tokens m)\<rparr>))
   \<and> (Url (proxy m) = [] \<longrightarrow> sendTokensToProxy N clk m tr = Some (m, tr))
   \<and> (Url (proxy m) \<noteq> [] \<and> distinct (map fst (tokens m)) \<longrightarrow>
        (\<forall>m' tr'. sendTokensToProxy N clk m tr = Some (m', tr') \<longrightarrow>
           tokens m' = notExpired clk (tokens m) \<and> version m' = version m))
   \<and> (Url (proxy m) \<noteq> [] \<and> distinct (map fst (tokens m)) \<and>
      NewRequest N (Url (proxy m) @ ''/'' @ Rversion N @ ''/'' @ Rtokens N) = None \<and>
      \<not> failedResponse (Do N (tr @ [SaveTokens (Path m @ ''.tokens'') (fst (tokenSnapshot clk m))])
                           (Url (proxy m) @ ''/'' @ Rversion N @ ''/'' @ Rtokens N)
                           (fst (tokenSnapshot clk m))) \<longrightarrow>
        sendTokensToProxy N clk m tr =
          Some (m\<lparr>tokens := notExpired clk (tokens m)\<rparr>,
                tr @ [SaveTokens (Path m @ ''.tokens'') (fst (tokenSnapshot clk m)),
                      Post (Url (proxy m) @ ''/'' @ Rversion N @ ''/'' @ Rtokens N)
                           (fst (tokenSnapshot clk m))]))"
proof (intro conjI impI)
  assume "distinct (map fst (tokens m))"
  then show "tokenSnapshot clk m =
        (\<lparr>Tokens = map (Token \<circ> snd) (notExpired clk (tokens m)), Version = version m\<rparr>,
         m\<lparr>tokens := notExpired clk (tokens m)\<rparr>)"
    by (rule tokenSnapshot_eq)
next
  assume "Url (proxy m) = []"
  then show "sendTokensToProxy N clk m tr = Some (m, tr)"
    by (simp add: sendTokensToProxy_def)
next
  assume a: "Url (proxy m) \<noteq> [] \<and> distinct (map fst (tokens m))"
  then show "\<forall>m' tr'. sendTokensToProxy N clk m tr = Some (m', tr') \<longrightarrow>
           tokens m' = notExpired clk (tokens m) \<and> version m' = version m"
    by (auto simp: sendTokensToProxy_def tokenSnapshot_eq split: option.splits)
next
  assume a: "Url (proxy m) \<noteq> [] \<and> distinct (map fst (tokens m)) \<and>
      NewRequest N (Url (proxy m) @ ''/'' @ Rversion N @ ''/'' @ Rtokens N) = None \<and>
      \<not> failedResponse (Do N (tr @ [SaveTokens (Path m @ ''.tokens'') (fst (tokenSnapshot clk m))])
                           (Url (proxy m) @ ''/'' @ Rversion N @ ''/'' @ Rtokens N)
                           (fst (tokenSnapshot clk m)))"
  then have s: "tokenSnapshot clk m =
        (\<lparr>Tokens = map (Token \<circ> snd) (notExpired clk (tokens m)), Version = version m\<rparr>,
         m\<lparr>tokens := notExpired clk (tokens m)\<rparr>)"
    by (simp add: tokenSnapshot_eq)
  from a show "sendTokensToProxy N clk m tr =
          Some (m\<lparr>tokens := notExpired clk (tokens m)\<rparr>,
                tr @ [SaveTokens (Path m @ ''.tokens'') (fst (tokenSnapshot clk m)),
                      Post (Url (proxy m) @ ''/'' @ Rversion N @ ''/'' @ Rtokens N)
                           (fst (tokenSnapshot clk m))])"
    by (simp add: sendTokensToProxy_def s) (subst deliverLoop.simps, simp add: Let_def)
qed



lemma exampleManager_notExpired:
  "notExpired (\<lambda>k. 1855) (tokens exampleManager) =
      [(''user1'', \<lparr>UserID_tok = ''user1'', Issued = 100, Expires = 1900, Token = ''tokenA''\<rparr>),
       (''user9'', \<lparr>UserID_tok = ''user9'', Issued = 60, Expires = 1860, Token = ''tokenC''\<rparr>)]"
  by (simp add: notExpired_const exampleManager_def)

lemma exampleManager_distinct: "distinct (map fst (tokens exampleManager))"
  by (simp add: exampleManager_def)

theorem sendTokensToProxy_snapshot_witness:
  "tokenSnapshot (\<lambda>k. 1855) exampleManager =
     (\<lparr>Tokens = [''tokenA'', ''tokenC''], Version = 7\<rparr>,
      exampleManager\<lparr>tokens := [(''user1'', \<lparr>UserID_tok = ''user1'', Issued = 100, Expires = 1900,
                                            Token = ''tokenA''\<rparr>),
                                  (''user9'', \<lparr>UserID_tok = ''user9'', Issued = 60, Expires = 1860,
                                            Token = ''tokenC''\<rparr>)]\<rparr>)
   \<and> sendTokensToProxy exampleNet (\<lambda>k. 1855) exampleManager [] = Some (exampleManager, [])
   \<and> sendTokensToProxy exampleNet (\<lambda>k. 1855)
        (exampleManager\<lparr>proxy := exampleProxy\<lparr>Url := ''http://p2''\<rparr>\<rparr>) []
      = Some (exampleManager\<lparr>proxy := exampleProxy\<lparr>Url := ''http://p2''\<rparr>,
                tokens := [(''user1'', \<lparr>UserID_tok = ''user1'', Issued = 100, Expires = 1900,
                                            Token = ''tokenA''\<rparr>),
                           (''user9'', \<lparr>UserID_tok = ''user9'', Issued = 60, Expires = 1860,
                                            Token = ''tokenC''\<rparr>)]\<rparr>,
              [SaveTokens ''/tmp/users.json.tokens'' \<lparr>Tokens = [''tokenA'', ''tokenC''], Version = 7\<rparr>,
               Post ''http://p2/v1/tokens'' \<lparr>Tokens = [''tokenA'', ''tokenC''], Version = 7\<rparr>])"
proof -
  note ne = exampleManager_notExpired and d = exampleManager_distinct
  have v: "version exampleManager = 7" by (simp add: exampleManager_def)
  have "tokenSnapshot (\<lambda>k. 1855) exampleManager =
        (\<lparr>Tokens = map (Token \<circ> snd) (notExpired (\<lambda>k. 1855) (tokens exampleManager)),
           Version = version exampleManager\<rparr>,
         exampleManager\<lparr>tokens := notExpired (\<lambda>k. 1855) (tokens exampleManager)\<rparr>)"
    using sendTokensToProxy_snapshot [of exampleManager "\<lambda>k. 1855" exampleNet "[]"] d
    by blast
  with v have 1: "tokenSnapshot (\<lambda>k. 1855) exampleManager =
     (\<lparr>Tokens = [''tokenA'', ''tokenC''], Version = 7\<rparr>,
      exampleManager\<lparr>tokens := notExpired (\<lambda>k. 1855) (tokens exampleManager)\<rparr>)"
    by (simp add: ne)
  have 2: "sendTokensToProxy exampleNet (\<lambda>k. 1855) exampleManager [] = Some (exampleManager, [])"
    using sendTokensToProxy_snapshot [of exampleManager "\<lambda>k. 1855" exampleNet "[]"]
    by (simp add: exampleManager_def)
  let ?m = "exampleManager\<lparr>proxy := exampleProxy\<lparr>Url := ''http://p2''\<rparr>\<rparr>"
  let ?url = "Url (proxy ?m) @ ''/'' @ Rversion exampleNet @ ''/'' @ Rtokens exampleNet"
  have d': "distinct (map fst (tokens ?m))" using d by simp
  have u: "Url (proxy ?m) \<noteq> []" by simp
  have url: "?url = ''http://p2/v1/tokens''" by (simp add: exampleNet_def)
  have pm: "Path ?m @ ''.tokens'' = ''/tmp/users.json.tokens''" by (simp add: exampleManager_def)
  have n: "NewRequest exampleNet ?url = None" by (simp add: exampleNet_def)
  have f: "\<not> failedResponse (Do exampleNet tr ?url body)" for tr body
    unfolding url by (simp add: exampleNet_def failedResponse_def)
  have s: "fst (tokenSnapshot (\<lambda>k. 1855) ?m) = \<lparr>Tokens = [''tokenA'', ''tokenC''], Version = 7\<rparr>"
  proof -
    have "tokenSnapshot (\<lambda>k. 1855) ?m =
        (\<lparr>Tokens = map (Token \<circ> snd) (notExpired (\<lambda>k. 1855) (tokens ?m)), Version = version ?m\<rparr>,
         ?m\<lparr>tokens := notExpired (\<lambda>k. 1855) (tokens ?m)\<rparr>)"
      by (rule tokenSnapshot_eq [OF d'])
    moreover have "version ?m = 7" by (simp add: exampleManager_def)
    moreover have "tokens ?m = tokens exampleManager" by simp
    ultimately show ?thesis by (simp add: ne)
  qed
  have "sendTokensToProxy exampleNet (\<lambda>k. 1855) ?m [] =
          Some (?m\<lparr>tokens := notExpired (\<lambda>k. 1855) (tokens ?m)\<rparr>,
                [] @ [SaveTokens (Path ?m @ ''.tokens'') (fst (tokenSnapshot (\<lambda>k. 1855) ?m)),
                      Post ?url (fst (tokenSnapshot (\<lambda>k. 1855) ?m))])"
    using sendTokensToProxy_snapshot [of ?m "\<lambda>k. 1855" exampleNet "[]"] d' u n f
    by blast
  then have 3: "sendTokensToProxy exampleNet (\<lambda>k. 1855) ?m [] =
          Some (?m\<lparr>tokens := notExpired (\<lambda>k. 1855) (tokens exampleManager)\<rparr>,
              [SaveTokens ''/tmp/users.json.tokens'' \<lparr>Tokens = [''tokenA'', ''tokenC''], Version = 7\<rparr>,
               Post ''http://p2/v1/tokens'' \<lparr>Tokens = [''tokenA'', ''tokenC''], Version = 7\<rparr>])"
    unfolding url pm s by simp
  from 1 2 3 show ?thesis unfolding ne by simp
qed

section \<open>Detection of the primary\<close>

lemma probeLoop_append:
  "probeLoop get url (xs @ ys) tr =
     (case probeLoop get url xs tr of
        (Some smap, tr1) \<Rightarrow> (Some smap, tr1)
      | (None, tr1) \<Rightarrow> probeLoop get url ys tr1)"
  by (induction xs arbitrary: tr) (auto split: sum.splits)

lemma answer_Suc: "answer get tr (u # us) (Suc j) = answer get (tr @ [GetSmap u]) us j"
  by (simp add: answer_def)

lemma answer_0: "answer get tr (u # us) 0 = get tr u"
  by (simp add: answer_def)

lemma probeLoop_none:
  assumes "\<forall>j < length (filter (\<lambda>u. u \<noteq> url) (map DirectURL ds)).
             \<not> differs url (answer get tr (filter (\<lambda>u. u \<noteq> url) (map DirectURL ds)) j)"
  shows "probeLoop get url ds tr =
           (None, tr @ map GetSmap (filter (\<lambda>u. u \<noteq> url) (map DirectURL ds)))"
  using assms
proof (induction ds arbitrary: tr)
  case Nil
  then show ?case by simp
next
  case (Cons d ds)
  let ?us = "filter (\<lambda>u. u \<noteq> url) (map DirectURL ds)"
  show ?case
  proof (cases "DirectURL d = url")
    case True
    with Cons show ?thesis by simp
  next
    case False
    with Cons.prems have all: "\<forall>j < Suc (length ?us). \<not> differs url (answer get tr (DirectURL d # ?us) j)"
      by simp
    then have 0: "\<not> differs url (get tr (DirectURL d))"
      using answer_0 [of get tr "DirectURL d" ?us] by (metis zero_less_Suc)
    from all have "\<forall>j < length ?us. \<not> differs url (answer get (tr @ [GetSmap (DirectURL d)]) ?us j)"
      by (auto simp: answer_Suc [symmetric])
    from Cons.IH [OF this] 0 False show ?thesis
      by (auto simp: differs_def split: sum.splits)
  qed
qed

lemma probeLoop_some:
  assumes "j < length (filter (\<lambda>u. u \<noteq> url) (map DirectURL ds))"
    and "answer get tr (filter (\<lambda>u. u \<noteq> url) (map DirectURL ds)) j = Inr smap"
    and "DirectURL (ProxySI smap) \<noteq> url"
    and "\<forall>i < j. \<not> differs url (answer get tr (filter (\<lambda>u. u \<noteq> url) (map DirectURL ds)) i)"
  shows "probeLoop get url ds tr =
           (Some smap, tr @ map GetSmap (take (Suc j) (filter (\<lambda>u. u \<noteq> url) (map DirectURL ds))))"
  using assms
proof (induction ds arbitrary: tr j)
  case Nil
  then show ?case by simp
next
  case (Cons d ds)
  let ?us = "filter (\<lambda>u. u \<noteq> url) (map DirectURL ds)"
  show ?case
  proof (cases "DirectURL d = url")
    case True
    with Cons show ?thesis by simp
  next
    case False
    show ?thesis
    proof (cases j)
      case 0
      with Cons.prems False have "get tr (DirectURL d) = Inr smap"
        by (simp add: answer_0)
      with Cons.prems(3) False 0 show ?thesis by simp
    next
      case (Suc k)
      with Cons.prems False have k: "k < length ?us"
        and ans: "answer get (tr @ [GetSmap (DirectURL d)]) ?us k = Inr smap"
        by (simp_all add: answer_Suc)
      from Cons.prems(4) False Suc
      have before: "\<forall>i < Suc k. \<not> differs url (answer get tr (DirectURL d # ?us) i)"
        by simp
      then have 0: "\<not> differs url (get tr (DirectURL d))"
        using answer_0 [of get tr "DirectURL d" ?us] by (metis zero_less_Suc)
      from before have "\<forall>i < k. \<not> differs url (answer get (tr @ [GetSmap (DirectURL d)]) ?us i)"
        by (auto simp: answer_Suc [symmetric])
      from Cons.IH [OF k ans Cons.prems(3) this] 0 False Suc show ?thesis
        by (auto simp: differs_def split: sum.splits)
    qed
  qed
qed

lemma detectPrimary_members:
  assumes "Smap p = Some s" "Pmap s \<noteq> [] \<or> Tmap s \<noteq> []"
  shows "detectPrimary get p tr =
     (case probeLoop get (Url p) (map snd (Pmap s @ Tmap s)) tr of
        (Some smap, tr') \<Rightarrow> (None, adopt smap p, tr')
      | (None, tr') \<Rightarrow> (Some PrimaryDetectionFailed, p, tr'))"
  using assms by (auto simp: detectPrimary_def probeLoop_append split: prod.splits option.splits)

text \<open>
  Claim C6. \<^verbatim>\<open>detectPrimary\<close> fails with "Cluster map is empty" when the proxy has
  no cluster map or the map has neither proxies nor targets, and then asks nobody.
  Otherwise it asks the candidates in their order, proxies before targets and never a
  member at the tracked URL. At the first candidate that answers with a map whose
  primary is not the tracked URL it stops, with no error, the tracked URL set to that
  primary and the map replaced by the answer; the candidates after it are not asked.
  If no candidate gives such an answer it has asked them all and fails with "Detecting
  primary proxy failed", the proxy unchanged.
\<close>

theorem detectPrimary_probes:
  "(Smap p = None \<longrightarrow> detectPrimary get p tr = (Some EmptyClusterMap, p, tr))
   \<and> (Smap p = Some s \<and> Pmap s = [] \<and> Tmap s = [] \<longrightarrow>
        detectPrimary get p tr = (Some EmptyClusterMap, p, tr))
   \<and> (Smap p = Some s \<and> (Pmap s \<noteq> [] \<or> Tmap s \<noteq> []) \<longrightarrow>
        (\<forall>j smap. j < length (candidates p s) \<and>
             answer get tr (candidates p s) j = Inr smap \<and> DirectURL (ProxySI smap) \<noteq> Url p \<and>
             (\<forall>i < j. \<not> differs (Url p) (answer get tr (candidates p s) i))
           \<longrightarrow> detectPrimary get p tr =
                 (None, p\<lparr>Url := DirectURL (ProxySI smap), Smap := Some smap\<rparr>,
                  tr @ map GetSmap (take (Suc j) (candidates p s))))
      \<and> ((\<forall>j < length (candidates p s). \<not> differs (Url p) (answer get tr (candidates p s) j))
           \<longrightarrow> detectPrimary get p tr =
                 (Some PrimaryDetectionFailed, p, tr @ map GetSmap (candidates p s))))"
proof (intro conjI impI allI)
  assume "Smap p = None"
  then show "detectPrimary get p tr = (Some EmptyClusterMap, p, tr)"
    by (simp add: detectPrimary_def)
next
  assume "Smap p = Some s \<and> Pmap s = [] \<and> Tmap s = []"
  then show "detectPrimary get p tr = (Some EmptyClusterMap, p, tr)"
    by (simp add: detectPrimary_def)
next
  fix j smap
  assume m: "Smap p = Some s \<and> (Pmap s \<noteq> [] \<or> Tmap s \<noteq> [])"
  have c: "candidates p s = filter (\<lambda>u. u \<noteq> Url p) (map DirectURL (map snd (Pmap s @ Tmap s)))"
    by (simp add: candidates_def)
  assume "j < length (candidates p s) \<and>
             answer get tr (candidates p s) j = Inr smap \<and> DirectURL (ProxySI smap) \<noteq> Url p \<and>
             (\<forall>i < j. \<not> differs (Url p) (answer get tr (candidates p s) i))"
  then have "probeLoop get (Url p) (map snd (Pmap s @ Tmap s)) tr =
      (Some smap, tr @ map GetSmap (take (Suc j) (candidates p s)))"
    unfolding c by (intro probeLoop_some) auto
  with m show "detectPrimary get p tr =
                 (None, p\<lparr>Url := DirectURL (ProxySI smap), Smap := Some smap\<rparr>,
                  tr @ map GetSmap (take (Suc j) (candidates p s)))"
    by (simp add: detectPrimary_members adopt_def)
next
  assume m: "Smap p = Some s \<and> (Pmap s \<noteq> [] \<or> Tmap s \<noteq> [])"
  have c: "candidates p s = filter (\<lambda>u. u \<noteq> Url p) (map DirectURL (map snd (Pmap s @ Tmap s)))"
    by (simp add: candidates_def)
  assume "\<forall>j < length (candidates p s). \<not> differs (Url p) (answer get tr (candidates p s) j)"
  then have "probeLoop get (Url p) (map snd (Pmap s @ Tmap s)) tr =
      (None, tr @ map GetSmap (candidates p s))"
    unfolding c by (rule probeLoop_none)
  with m show "detectPrimary get p tr =
                 (Some PrimaryDetectionFailed, p, tr @ map GetSmap (candidates p s))"
    by (simp add: detectPrimary_members)
qed


theorem detectPrimary_probes_witness:
  "detectPrimary (GetClusterMap exampleNet) exampleProxy [] =
     (None,
      exampleProxy\<lparr>Url := ''http://p2'',
                    Smap := Some (exampleSmap\<lparr>ProxySI := \<lparr>DaemonID = ''p2'',
                                                          DirectURL = ''http://p2''\<rparr>\<rparr>)\<rparr>,
      [GetSmap ''http://p2'', GetSmap ''http://t1''])
   \<and> detectPrimary (\<lambda>tr url. Inl (LibraryError ''timeout'')) exampleProxy [] =
       (Some PrimaryDetectionFailed, exampleProxy, [GetSmap ''http://p2'', GetSmap ''http://t1''])
   \<and> detectPrimary (GetClusterMap exampleNet) (exampleProxy\<lparr>Smap := None\<rparr>) [] =
       (Some EmptyClusterMap, exampleProxy\<lparr>Smap := None\<rparr>, [])
   \<and> detectPrimary (GetClusterMap exampleNet)
        (exampleProxy\<lparr>Smap := Some (exampleSmap\<lparr>Pmap := [], Tmap := []\<rparr>)\<rparr>) [] =
       (Some EmptyClusterMap, exampleProxy\<lparr>Smap := Some (exampleSmap\<lparr>Pmap := [], Tmap := []\<rparr>)\<rparr>, [])"
proof -
  let ?new = "exampleSmap\<lparr>ProxySI := \<lparr>DaemonID = ''p2'', DirectURL = ''http://p2''\<rparr>\<rparr>"
  have c: "candidates exampleProxy exampleSmap = [''http://p2'', ''http://t1'']"
    by (simp add: candidates_def exampleProxy_def exampleSmap_def)
  have s: "Smap exampleProxy = Some exampleSmap \<and> (Pmap exampleSmap \<noteq> [] \<or> Tmap exampleSmap \<noteq> [])"
    by (simp add: exampleProxy_def exampleSmap_def)
  have u: "Url exampleProxy = ''http://p1''" by (simp add: exampleProxy_def)
  have a0: "\<not> differs (Url exampleProxy)
               (answer (GetClusterMap exampleNet) [] (candidates exampleProxy exampleSmap) 0)"
    by (simp add: c answer_def differs_def exampleNet_def)
  have a1: "answer (GetClusterMap exampleNet) [] (candidates exampleProxy exampleSmap) 1 = Inr ?new"
    by (simp add: c answer_def exampleNet_def)
  have n: "DirectURL (ProxySI ?new) \<noteq> Url exampleProxy" by (simp add: u)
  have "detectPrimary (GetClusterMap exampleNet) exampleProxy [] =
      (None, exampleProxy\<lparr>Url := DirectURL (ProxySI ?new), Smap := Some ?new\<rparr>,
       [] @ map GetSmap (take (Suc 1) (candidates exampleProxy exampleSmap)))"
  proof -
    have pre: "1 < length (candidates exampleProxy exampleSmap) \<and>
        answer (GetClusterMap exampleNet) [] (candidates exampleProxy exampleSmap) 1 = Inr ?new \<and>
        DirectURL (ProxySI ?new) \<noteq> Url exampleProxy \<and>
        (\<forall>i < 1. \<not> differs (Url exampleProxy)
            (answer (GetClusterMap exampleNet) [] (candidates exampleProxy exampleSmap) i))"
      using a0 a1 n by (simp add: c)
    from detectPrimary_probes [of exampleProxy "GetClusterMap exampleNet" "[]" exampleSmap] s
    have "\<forall>j smap. j < length (candidates exampleProxy exampleSmap) \<and>
             answer (GetClusterMap exampleNet) [] (candidates exampleProxy exampleSmap) j = Inr smap \<and>
             DirectURL (ProxySI smap) \<noteq> Url exampleProxy \<and>
             (\<forall>i < j. \<not> differs (Url exampleProxy)
                 (answer (GetClusterMap exampleNet) [] (candidates exampleProxy exampleSmap) i))
           \<longrightarrow> detectPrimary (GetClusterMap exampleNet) exampleProxy [] =
                 (None, exampleProxy\<lparr>Url := DirectURL (ProxySI smap), Smap := Some smap\<rparr>,
                  [] @ map GetSmap (take (Suc j) (candidates exampleProxy exampleSmap)))"
      by blast
    with pre show ?thesis by blast
  qed
  then have 1: "detectPrimary (GetClusterMap exampleNet) exampleProxy [] =
      (None, exampleProxy\<lparr>Url := ''http://p2'', Smap := Some ?new\<rparr>,
       [GetSmap ''http://p2'', GetSmap ''http://t1''])"
    by (simp add: c)
  have "\<forall>j < length (candidates exampleProxy exampleSmap).
          \<not> differs (Url exampleProxy)
              (answer (\<lambda>tr url. Inl (LibraryError ''timeout'')) []
                 (candidates exampleProxy exampleSmap) j)"
    by (simp add: answer_def differs_def)
  then have "detectPrimary (\<lambda>tr url. Inl (LibraryError ''timeout'')) exampleProxy [] =
       (Some PrimaryDetectionFailed, exampleProxy,
        [] @ map GetSmap (candidates exampleProxy exampleSmap))"
    using detectPrimary_probes [of exampleProxy "\<lambda>tr url. Inl (LibraryError ''timeout'')" "[]"
            exampleSmap] s
    by blast
  then have 2: "detectPrimary (\<lambda>tr url. Inl (LibraryError ''timeout'')) exampleProxy [] =
       (Some PrimaryDetectionFailed, exampleProxy, [GetSmap ''http://p2'', GetSmap ''http://t1''])"
    by (simp add: c)
  have 3: "detectPrimary (GetClusterMap exampleNet) (exampleProxy\<lparr>Smap := None\<rparr>) [] =
       (Some EmptyClusterMap, exampleProxy\<lparr>Smap := None\<rparr>, [])"
    using detectPrimary_probes [of "exampleProxy\<lparr>Smap := None\<rparr>" "GetClusterMap exampleNet" "[]"]
    by simp
  have 4: "detectPrimary (GetClusterMap exampleNet)
        (exampleProxy\<lparr>Smap := Some (exampleSmap\<lparr>Pmap := [], Tmap := []\<rparr>)\<rparr>) [] =
       (Some EmptyClusterMap, exampleProxy\<lparr>Smap := Some (exampleSmap\<lparr>Pmap := [], Tmap := []\<rparr>)\<rparr>, [])"
    using detectPrimary_probes [of "exampleProxy\<lparr>Smap := Some (exampleSmap\<lparr>Pmap := [], Tmap := []\<rparr>)\<rparr>"
            "GetClusterMap exampleNet" "[]" "exampleSmap\<lparr>Pmap := [], Tmap := []\<rparr>"]
    by simp
  from 1 2 3 4 show ?thesis by simp
qed

end
